theory Spec2Isabelle
  imports Main "HOL-Library.Sublist" "HOL-Library.Char_ord" "HOL-Library.List_Lexorder"
begin

section \<open>Task dependency plotter: \<^verbatim>\<open>tools/plot_task_dependencies.py\<close>\<close>

text \<open>
  The script reads CSV tables of task dependencies and writes one graphviz description per
  table. Python strings are modelled as \<^typ>\<open>string\<close>, Python integers as \<^typ>\<open>int\<close>,
  every \<^verbatim>\<open>raise\<close> as a value of the type \<open>error\<close>, and a file opened for writing as the
  list of the strings passed to \<^verbatim>\<open>f.write\<close>, in order.
\<close>

subsection \<open>Errors and strings\<close>

datatype error =
    FileNotFoundError string
  | ValueError "string list"
  | IndexError
  | KeyError string
  | Exception string

text \<open>Python's \<^verbatim>\<open>sub in s\<close> on strings: \<open>sub\<close> occurs in \<open>s\<close> as a contiguous block.\<close>

fun str_in :: "string \<Rightarrow> string \<Rightarrow> bool" where
  "str_in sub [] = (sub = [])"
| "str_in sub (c # cs) = (prefix sub (c # cs) \<or> str_in sub cs)"

text \<open>Python's \<^verbatim>\<open>s.startswith(p)\<close>.\<close>

definition startswith :: "string \<Rightarrow> string \<Rightarrow> bool" where
  "startswith s p = prefix p s"

text \<open>A dictionary with string keys; a missing key raises \<^verbatim>\<open>KeyError\<close>.\<close>

definition dict_get :: "(string \<times> string) list \<Rightarrow> string \<Rightarrow> error + string" where
  "dict_get d k = (case map_of d k of None \<Rightarrow> Inl (KeyError k) | Some v \<Rightarrow> Inr v)"

subsection \<open>The task classifier\<close>

definition task_colours :: "(string \<times> string) list" where
  "task_colours =
    [(''black_holes'', ''forestgreen''),
     (''stars'', ''darkorange1''),
     (''hydro'', ''blue3''),
     (''gravity'', ''red3''),
     (''RT'', ''springgreen''),
     (''sink'', ''lightseagreen'')]"

definition task_is_black_holes :: "string \<Rightarrow> bool" where
  "task_is_black_holes name =
    (if str_in ''bh'' name \<or> str_in ''bpart'' name \<or> str_in ''swallow'' name then True
     else False)"

definition task_is_stars :: "string \<Rightarrow> bool" where
  "task_is_stars name =
    (if str_in ''stars'' name \<or> str_in ''spart'' name then True
     else if str_in ''sf_count'' name then True
     else False)"

definition task_is_hydro :: "string \<Rightarrow> bool" where
  "task_is_hydro name =
    (if str_in ''hydro'' name then True
     else if str_in ''_part'' name then True
     else if str_in ''density'' name \<and> \<not> str_in ''stars'' name \<and> \<not> str_in ''bh'' name
       then True
     else if str_in ''rho'' name \<and> \<not> str_in ''bpart'' name then True
     else if str_in ''gradient'' name \<and> \<not> str_in ''rt_gradient'' name then True
     else if str_in ''force'' name \<and> \<not> str_in ''grav'' name then True
     else if str_in ''xv'' name \<and> \<not> str_in ''bpart'' name then True
     else if name \<in> set [''sort'', ''ghost_in'', ''ghost'', ''ghost_out'', ''extra_ghost'',
                          ''cooling'', ''cooling_in'', ''cooling_out'', ''star_formation'']
       then True
     else False)"

definition task_is_gravity :: "string \<Rightarrow> bool" where
  "task_is_gravity name =
    (if str_in ''gpart'' name then True
     else if str_in ''grav'' name then True
     else False)"

definition task_is_RT :: "string \<Rightarrow> bool" where
  "task_is_RT name =
    (if str_in ''_rt'' name then True
     else if startswith name ''rt_'' then True
     else False)"

definition task_is_sink :: "string \<Rightarrow> bool" where
  "task_is_sink name = (if str_in ''sink'' name then True else False)"

text \<open>
  The colour starts as \<^verbatim>\<open>"black"\<close> and is replaced by the dictionary entry of the first
  predicate that holds; the dictionary is read only in the branch taken.
\<close>

definition get_task_colour :: "string \<Rightarrow> error + string" where
  "get_task_colour taskname =
    (if task_is_black_holes taskname then dict_get task_colours ''black_holes''
     else if task_is_stars taskname then dict_get task_colours ''stars''
     else if task_is_hydro taskname then dict_get task_colours ''hydro''
     else if task_is_gravity taskname then dict_get task_colours ''gravity''
     else if task_is_RT taskname then dict_get task_colours ''RT''
     else if task_is_sink taskname then dict_get task_colours ''sink''
     else Inr ''black'')"

subsection \<open>Rows of the dependency table\<close>

text \<open>
  One row of the CSV table, with the columns the script reads. \<^verbatim>\<open>set_task_colours\<close> adds the
  column \<^verbatim>\<open>task_colour\<close>; a row that has it is a \<open>crow\<close>.
\<close>

record row =
  task_in :: string
  task_out :: string
  implicit_in :: int
  implicit_out :: int
  mpi_in :: int
  mpi_out :: int
  cluster_in :: string
  cluster_out :: string
  number_link :: int
  number_rank :: int
  task_in_is_top :: int
  task_in_is_hydro_super :: int
  task_in_is_grav_super :: int
  task_out_is_top :: int
  task_out_is_hydro_super :: int
  task_out_is_grav_super :: int
  cell_has_active_task :: int

record crow = row +
  task_colour :: string

subsection \<open>The command line and the world outside the script\<close>

text \<open>The namespace that \<^verbatim>\<open>argparse\<close> builds from the command line.\<close>

record namespace =
  with_calls :: bool
  with_levels :: bool
  files :: "string list"

text \<open>
  What the script asks of libraries and of the operating system, as functions of the
  arguments it passes: \<^verbatim>\<open>parser.parse_args()\<close>, \<^verbatim>\<open>path.exists\<close>, \<^verbatim>\<open>path.splitext\<close>, opening
  a file and reading its first line, \<^verbatim>\<open>read_csv(f, delimiter=",", comment="#")\<close> and
  \<^verbatim>\<open>subprocess.call\<close>. The parser, the two readers and the subprocess either raise or
  return; a table that \<^verbatim>\<open>read_csv\<close> returns has the columns of \<open>row\<close>, the names and
  clusters as strings and the other cells as integers.
\<close>

record world =
  parser_parse_args :: "error + namespace"
  path_exists :: "string \<Rightarrow> bool"
  path_splitext :: "string \<Rightarrow> string \<times> string"
  open_readline :: "string \<Rightarrow> error + string"
  read_csv :: "string \<Rightarrow> error + row list"
  call :: "string list \<Rightarrow> error + int"

definition parse_args :: "world \<Rightarrow> error + (namespace \<times> string list)" where
  "parse_args w =
    (case parser_parse_args w of
       Inl e \<Rightarrow> Inl e
     | Inr args \<Rightarrow>
        (if list_ex (\<lambda>f. \<not> path_exists w f) (files args)
           then Inl (FileNotFoundError ''You need to provide one file'')
         else if with_calls args \<and> with_levels args
           then Inl (ValueError [''I can't run with --with-calls and'',
                                 '' --with-levels simultaneously. Pick one!''])
         else Inr (args, files args)))"

subsection \<open>The version reader\<close>

text \<open>
  \<^verbatim>\<open>str.isspace\<close> on the code points below 256, and \<^verbatim>\<open>str.rstrip()\<close>, which removes the
  white space at the end of a string.
\<close>

definition is_space :: "char \<Rightarrow> bool" where
  "is_space c = (of_char c \<in> set [9, 10, 11, 12, 13, 28, 29, 30, 31, 32, 133, 160 :: nat])"

definition rstrip :: "string \<Rightarrow> string" where
  "rstrip s = rev (dropWhile is_space (rev s))"

text \<open>
  \<^verbatim>\<open>line[0]\<close> raises \<^verbatim>\<open>IndexError\<close> on the empty string, which \<^verbatim>\<open>readline\<close> returns at the
  end of the file only.
\<close>

definition get_git_version :: "world \<Rightarrow> string \<Rightarrow> string option \<Rightarrow> error + string option" where
  "get_git_version w f git =
    (case open_readline w f of
       Inl e \<Rightarrow> Inl e
     | Inr line \<Rightarrow>
        (case line of
           [] \<Rightarrow> Inl IndexError
         | c # _ \<Rightarrow>
            if c \<noteq> CHR ''#'' then Inr None
            else
              let new_git = rstrip (drop 2 line)
              in if git \<noteq> None \<and> git \<noteq> Some new_git
                   then Inl (Exception ''Files were not produced by the same version'')
                 else Inr (Some new_git)))"

subsection \<open>Colouring the table\<close>

fun set_task_colours :: "row list \<Rightarrow> error + crow list" where
  "set_task_colours [] = Inr []"
| "set_task_colours (r # rs) =
    (case get_task_colour (task_in r) of
       Inl e \<Rightarrow> Inl e
     | Inr col \<Rightarrow>
        (case set_task_colours rs of
           Inl e \<Rightarrow> Inl e
         | Inr rs' \<Rightarrow> Inr (row.extend r (crow.fields col) # rs')))"

subsection \<open>Node declarations\<close>

abbreviation TAB :: char where
  "TAB \<equiv> CHR 0x09"

definition get_function_calls :: "string \<Rightarrow> string option" where
  "get_function_calls name =
    (let txt =
       (if name = ''ghost'' then
          Some (''hydro_end_density, chemistry_end_density,<br/>\<newline>''
            @ ''        hydro_prepare_gradient, hydro_reset_gradient,<br/>\<newline>''
            @ ''        hydro_prepare_force, hydro_reset_acceleration,<br/>\<newline>''
            @ ''        hydro_init_part, chemistry_init_part,<br/>\<newline>''
            @ ''        hydro_has_no_neighbours, chemistry_part_has_no_neighbours\<newline>''
            @ ''        '')
        else if name = ''cooling'' then Some ''cooling_cool_part''
        else if name = ''timestep'' then Some ''tracers_after_timestep''
        else if name = ''drift_part'' then
          Some (''drift_part, tracers_after_drift,<br/>\<newline>''
            @ ''        hydro_init_part, chemistry_init_part,<br/>\<newline>''
            @ ''        tracers_after_init\<newline>''
            @ ''        '')
        else if name = ''kick1'' then Some ''kick_part, kick_gpart, kick_spart''
        else if name = ''kick2'' then
          Some (''kick_part, kick_gpart, kick_spart,<br/>\<newline>''
            @ ''        hydro_reset_predicted_values,\<newline>''
            @ ''        gravity_reset_predicted_Values,<br/>\<newline>''
            @ ''        stars_reset_predicted_values,\<newline>''
            @ ''        '')
        else if name = ''end_force'' then
          Some (''hydro_end_force, gravity_end_force,<br/>\<newline>''
            @ ''        stars_end_force'')
        else if name = ''drift_gpart'' then
          Some (''drift_gpart, gravity_init_gpart,<br/>\<newline>''
            @ ''        drift_spart\<newline>''
            @ ''        '')
        else None);
       txt =
       (if str_in ''density'' name \<and> \<not> str_in ''stars'' name then
          Some (''runner_iact_nonsym_chemistry, runner_iact_chemistry,<br/>\<newline>''
            @ ''        runner_iact_nonsym_density, runner_iact_density'')
        else txt);
       txt =
       (if str_in ''force'' name \<and> \<not> str_in ''end'' name then
          Some ''runner_iact_nonsym_density, runner_iact_density''
        else txt)
     in case txt of
          None \<Rightarrow> None
        | Some txt \<Rightarrow>
           let pre = ''<'' @ name @ ''<BR/> <Font POINT-SIZE='10'>Calls: '';
               app = ''</Font>>''
           in Some (pre @ txt @ app))"

text \<open>
  \<^verbatim>\<open>write_task\<close> builds one node declaration and writes it with a single \<^verbatim>\<open>f.write\<close>. The
  integers \<open>implicit\<close> and \<open>mpi\<close> are tested for truth, that is, for being non-zero.
  The file \<open>f\<close> is returned with the text appended; when the colour lookup raises,
  nothing has been written.
\<close>

definition write_task ::
  "string list \<Rightarrow> string \<Rightarrow> int \<Rightarrow> int \<Rightarrow> bool \<Rightarrow> bool \<Rightarrow> bool \<Rightarrow> bool \<Rightarrow> bool \<Rightarrow> bool
    \<Rightarrow> string list \<times> error option" where
  "write_task f name implicit mpi task_is_in_top task_is_in_hydro_super task_is_in_grav_super
      has_active_task calls levels =
    (let txt = TAB # '' '' @ name @ ''['';
         txt =
         (if \<not> has_active_task then txt @ ''style=filled,fillcolor=lightpink2,''
          else if implicit \<noteq> 0 then txt @ ''style=filled,fillcolor=grey90,''
          else txt);
         txt = (if mpi \<noteq> 0 then txt @ ''shape=diamond,style=filled,fillcolor=azure,'' else txt);
         txt =
         (if levels then
            let levelstr = [];
                levelstr = (if task_is_in_top then ''top'' else levelstr);
                levelstr =
                (if task_is_in_hydro_super \<and> \<not> task_is_in_grav_super then
                   (if length levelstr > 0 then levelstr @ '' / '' else levelstr)
                     @ ''hydro super''
                 else levelstr);
                levelstr =
                (if task_is_in_grav_super \<and> \<not> task_is_in_hydro_super then
                   (if length levelstr > 0 then levelstr @ '' / '' else levelstr)
                     @ ''grav super''
                 else levelstr);
                levelstr =
                (if task_is_in_grav_super \<and> task_is_in_hydro_super then
                   (if length levelstr > 0 then levelstr @ '' / '' else levelstr) @ ''super''
                 else levelstr);
                levelstr =
                (if \<not> task_is_in_top \<and> \<not> task_is_in_grav_super \<and> \<not> task_is_in_hydro_super
                   then ''below super''
                 else levelstr);
                txt = txt @ ''\<newline>'' @ [TAB, TAB] @ ''label=<\<newline>'';
                txt = txt @ [TAB, TAB, TAB]
                  @ ''<TABLE BORDER=\"0\" CELLBORDER=\"0\" CELLSPACING=\"0\">\<newline>'';
                txt = txt @ [TAB, TAB, TAB, TAB] @ ''<TR> <TD> <B> <FONT POINT-SIZE=\"18\">''
                  @ name @ '' </FONT> </B> </TD> </TR> <!-- task name -->\<newline>'';
                txt = txt @ [TAB, TAB, TAB, TAB] @ ''<TR> <TD> <FONT POINT-SIZE=\"18\">''
                  @ levelstr @ ''</FONT> </TD> </TR> <!-- task level -->\<newline>'';
                txt = txt @ [TAB, TAB, TAB] @ ''</TABLE>\<newline>''
            in txt @ [TAB, TAB, TAB] @ ''>,\<newline>'' @ [TAB, TAB]
          else txt)
     in case get_task_colour name of
          Inl e \<Rightarrow> (f, Some e)
        | Inr col \<Rightarrow>
           let txt = txt @ ''color='' @ col @ '','';
               txt =
               (if calls then
                  (case get_function_calls name of
                     None \<Rightarrow> txt
                   | Some func \<Rightarrow> txt @ ''label='' @ func @ '','')
                else txt);
               txt = (if last txt = CHR '','' then butlast txt else txt);
               txt = txt @ ''];\<newline>''
           in (f @ [txt], None))"

subsection \<open>The header and the special tasks\<close>

text \<open>Formatting with \<^verbatim>\<open>%s\<close>: a string is printed as it is, \<^verbatim>\<open>None\<close> as \<^verbatim>\<open>None\<close>.\<close>

definition format_s :: "string option \<Rightarrow> string" where
  "format_s v = (case v of None \<Rightarrow> ''None'' | Some s \<Rightarrow> s)"

text \<open>
  The first loop of \<^verbatim>\<open>write_header\<close>, over the column \<^verbatim>\<open>task_in\<close>. The state is the file
  and the list \<open>written\<close> of the names already declared; a name in \<open>written\<close> is
  skipped. The tasks of this column are written as active.
\<close>

fun write_header_task_in ::
  "namespace \<Rightarrow> 'a row_scheme list \<Rightarrow> string list \<Rightarrow> string list
    \<Rightarrow> string list \<times> string list \<times> error option" where
  "write_header_task_in opt [] f written = (f, written, None)"
| "write_header_task_in opt (r # rs) f written =
    (let ta = task_in r
     in if ta \<in> set written then write_header_task_in opt rs f written
        else
          let written = written @ [ta]
          in case write_task f ta (implicit_in r) (mpi_in r) (task_in_is_top r = 1)
                 (task_in_is_hydro_super r = 1) (task_in_is_grav_super r = 1) True
                 (with_calls opt) (with_levels opt) of
               (f, Some e) \<Rightarrow> (f, written, Some e)
             | (f, None) \<Rightarrow> write_header_task_in opt rs f written)"

text \<open>The second loop, over the column \<^verbatim>\<open>task_out\<close>, continues with the same list.\<close>

fun write_header_task_out ::
  "namespace \<Rightarrow> 'a row_scheme list \<Rightarrow> string list \<Rightarrow> string list
    \<Rightarrow> string list \<times> string list \<times> error option" where
  "write_header_task_out opt [] f written = (f, written, None)"
| "write_header_task_out opt (r # rs) f written =
    (let tb = task_out r
     in if tb \<in> set written then write_header_task_out opt rs f written
        else
          let written = written @ [tb]
          in case write_task f tb (implicit_out r) (mpi_out r) (task_out_is_top r = 1)
                 (task_out_is_hydro_super r = 1) (task_out_is_grav_super r = 1)
                 (cell_has_active_task r = 1) (with_calls opt) (with_levels opt) of
               (f, Some e) \<Rightarrow> (f, written, Some e)
             | (f, None) \<Rightarrow> write_header_task_out opt rs f written)"

text \<open>The fixed lines that \<^verbatim>\<open>write_header\<close> writes first.\<close>

definition write_header_lines :: "string list \<Rightarrow> string option \<Rightarrow> string list" where
  "write_header_lines f git =
    (let f = f @ [''digraph task_dep {\<newline>''];
         f = f @ [TAB # '' # Header\<newline>''];
         f = f @ [TAB # '' label=\"Task dependencies for SWIFT '' @ format_s git
                    @ ''\";\<newline>''];
         f = f @ [TAB # '' compound=true;\<newline>''];
         f = f @ [TAB # '' ratio=0.66;\<newline>''];
         f = f @ [TAB # '' node[nodesep=0.15, fontsize=18, penwidth=3.];\<newline>''];
         f = f @ [TAB # '' edge[fontsize=12, penwidth=0.5];\<newline>''];
         f = f @ [TAB # '' ranksep=0.8;\<newline>''];
         f = f @ [''\<newline>'']
     in f @ [TAB # '' # Special tasks\<newline>''])"

definition write_header ::
  "string list \<Rightarrow> 'a row_scheme list \<Rightarrow> string option \<Rightarrow> namespace
    \<Rightarrow> string list \<times> error option" where
  "write_header f data git opt =
    (let f = write_header_lines f git
     in case write_header_task_in opt data f [] of
          (f, written, Some e) \<Rightarrow> (f, Some e)
        | (f, written, None) \<Rightarrow>
           (case write_header_task_out opt data f written of
              (f, written, Some e) \<Rightarrow> (f, Some e)
            | (f, written, None) \<Rightarrow> (f @ [''\<newline>''], None)))"

subsection \<open>Clusters\<close>

text \<open>\<^verbatim>\<open>np.unique\<close>: the distinct values, sorted (strings compare by code point).\<close>

definition np_unique :: "string list \<Rightarrow> string list" where
  "np_unique xs = sort (remdups xs)"

definition write_cluster :: "string list \<Rightarrow> string list \<Rightarrow> string \<Rightarrow> string list" where
  "write_cluster f tasks cluster =
    (let f = f @ [TAB # '' subgraph cluster'' @ cluster @ '' {\<newline>''];
         f = f @ [[TAB, TAB] @ '' label=\"\";\<newline>''];
         f = f @ [[TAB, TAB] @ '' bgcolor=\"grey99\";\<newline>''];
         f = fold (\<lambda>t f. f @ [[TAB, TAB] @ '' '' @ t @ '';\<newline>'']) tasks f
     in f @ [TAB # '' };\<newline>\<newline>''])"

text \<open>
  All the values of the two cluster columns are collected; each of them except the string
  \<^verbatim>\<open>None\<close> gets one call of \<^verbatim>\<open>write_cluster\<close>, with the tasks of the rows that carry it.
\<close>

definition write_clusters :: "string list \<Rightarrow> 'a row_scheme list \<Rightarrow> string list" where
  "write_clusters f data =
    (let f = f @ [TAB # '' # Clusters\<newline>''];
         clusters = np_unique (concat (map (\<lambda>r. [cluster_in r, cluster_out r]) data));
         f = fold (\<lambda>cluster f.
                if cluster = ''None'' then f
                else
                  let ta = map task_in (filter (\<lambda>r. cluster_in r = cluster) data);
                      tb = map task_out (filter (\<lambda>r. cluster_out r = cluster) data);
                      tasks = np_unique (ta @ tb)
                  in write_cluster f tasks cluster) clusters f
     in f @ [''\<newline>''])"

subsection \<open>Dependencies\<close>

text \<open>Formatting an integer with \<^verbatim>\<open>%i\<close>: decimal digits, with a sign when negative.\<close>

fun str_of_nat :: "nat \<Rightarrow> string" where
  "str_of_nat n =
    (if n < 10 then [''0123456789'' ! n]
     else str_of_nat (n div 10) @ [''0123456789'' ! (n mod 10)])"

definition format_i :: "int \<Rightarrow> string" where
  "format_i i = (if i < 0 then CHR ''-'' # str_of_nat (nat (- i)) else str_of_nat (nat i))"

text \<open>\<^verbatim>\<open>Series.max()\<close>: the largest value; \<open>None\<close> stands for the NaN of an empty column.\<close>

definition series_max :: "int list \<Rightarrow> int option" where
  "series_max xs = (case xs of [] \<Rightarrow> None | x # ys \<Rightarrow> Some (fold max ys x))"

text \<open>
  The loop of \<^verbatim>\<open>write_dependencies\<close>. The list \<open>written\<close> holds the keys
  \<^verbatim>\<open>"%s_%s" % (ta, tb)\<close> of the rows already written; a row whose key is in the list
  raises, after the edges of the rows before it have been written.
\<close>

fun write_dependencies_rows ::
  "int option \<Rightarrow> crow list \<Rightarrow> string list \<Rightarrow> string list \<Rightarrow> string list \<times> error option" where
  "write_dependencies_rows max_rank [] f written = (f, None)"
| "write_dependencies_rows max_rank (l # ls) f written =
    (let ta = task_in l;
         tb = task_out l;
         name = ta @ ''_'' @ tb
     in if name \<in> set written then (f, Some (Exception ''Found two same task dependencies''))
        else
          let written = written @ [name];
              arrow = '',color='' @ task_colour l;
              arrow = (if Some (number_rank l) \<noteq> max_rank then arrow @ '',style=dashed''
                       else arrow);
              f = f @ [TAB # '' '' @ ta @ ''->'' @ tb @ ''[label='' @ format_i (number_link l)
                        @ arrow @ '',fontcolor='' @ task_colour l @ '']\<newline>'']
          in write_dependencies_rows max_rank ls f written)"

definition write_dependencies :: "string list \<Rightarrow> crow list \<Rightarrow> string list \<times> error option" where
  "write_dependencies f data =
    (let f = f @ [TAB # '' # Dependencies\<newline>''];
         max_rank = series_max (map number_rank data)
     in write_dependencies_rows max_rank data f [])"

definition write_footer :: "string list \<Rightarrow> string list" where
  "write_footer f = f @ [''}'']"

subsection \<open>The main program\<close>

text \<open>
  What a run leaves behind: the graph descriptions opened for writing, each with its name and
  the strings written to it, in the order of opening, and the lines printed. Opening a
  description for writing and writing to it are taken to succeed.
\<close>

record run =
  dot_files :: "(string \<times> string list) list"
  printed :: "string list"

text \<open>
  The body of the loop over the input files. The variable \<^verbatim>\<open>git\<close> is set to \<^verbatim>\<open>None\<close> in
  the body, before the version reader is called with it. An exception inside the
  \<^verbatim>\<open>with\<close> block closes the description with what has been written so far.
\<close>

definition main_file :: "world \<Rightarrow> namespace \<Rightarrow> string \<Rightarrow> run \<Rightarrow> run \<times> error option" where
  "main_file w args f st =
    (let basename = fst (path_splitext w f);
         dot_output = basename @ ''.dot'';
         png_output = basename @ ''.png'';
         git = None
     in case read_csv w f of
          Inl e \<Rightarrow> (st, Some e)
        | Inr data \<Rightarrow>
           (case get_git_version w f git of
              Inl e \<Rightarrow> (st, Some e)
            | Inr git \<Rightarrow>
               (case set_task_colours data of
                  Inl e \<Rightarrow> (st, Some e)
                | Inr data \<Rightarrow>
                   let (out, err) =
                         (case write_header [] data git args of
                            (out, Some e) \<Rightarrow> (out, Some e)
                          | (out, None) \<Rightarrow>
                             let out = write_clusters out data
                             in case write_dependencies out data of
                                  (out, Some e) \<Rightarrow> (out, Some e)
                                | (out, None) \<Rightarrow> (write_footer out, None));
                       st = st\<lparr>dot_files := dot_files st @ [(dot_output, out)]\<rparr>
                   in case err of
                        Some e \<Rightarrow> (st, Some e)
                      | None \<Rightarrow>
                         (case call w [''dot'', ''-Tpng'', dot_output, ''-o'', png_output] of
                            Inl e \<Rightarrow> (st, Some e)
                          | Inr rc \<Rightarrow>
                             let st = st\<lparr>printed := printed st
                                        @ [''You will find the graph in '' @ png_output]\<rparr>;
                                 st =
                                 (if with_calls args then
                                    st\<lparr>printed := printed st
                                      @ [''We recommand to use the python package xdot ''
                                           @ ''available on pypi:'',
                                         ''  python3 -m xdot '' @ dot_output]\<rparr>
                                  else st)
                             in (st, None)))))"

fun main_files :: "world \<Rightarrow> namespace \<Rightarrow> string list \<Rightarrow> run \<Rightarrow> run \<times> error option" where
  "main_files w args [] st = (st, None)"
| "main_files w args (f # fs) st =
    (case main_file w args f st of
       (st, Some e) \<Rightarrow> (st, Some e)
     | (st, None) \<Rightarrow> main_files w args fs st)"

definition main :: "world \<Rightarrow> run \<times> error option" where
  "main w =
    (case parse_args w of
       Inl e \<Rightarrow> (\<lparr>dot_files = [], printed = []\<rparr>, Some e)
     | Inr (args, fs) \<Rightarrow> main_files w args fs \<lparr>dot_files = [], printed = []\<rparr>)"

section \<open>Vocabulary of the properties\<close>

text \<open>
  \<open>declares opt name tx\<close>: the text \<open>tx\<close> is what one call of \<^verbatim>\<open>write_task\<close> for the task
  \<open>name\<close> writes, under the options \<open>opt\<close> and for some flags of the task.
\<close>

definition declares :: "namespace \<Rightarrow> string \<Rightarrow> string \<Rightarrow> bool" where
  "declares opt name tx \<longleftrightarrow>
    (\<exists>implicit mpi top hydro_super grav_super active.
       write_task [] name implicit mpi top hydro_super grav_super active
         (with_calls opt) (with_levels opt) = ([tx], None))"

text \<open>The key under which \<^verbatim>\<open>write_dependencies\<close> remembers a row.\<close>

definition dependency_key :: "'a row_scheme \<Rightarrow> string" where
  "dependency_key l = task_in l @ ''_'' @ task_out l"

text \<open>
  The edge of a row as the specification describes it: from \<^verbatim>\<open>task_in\<close> to \<^verbatim>\<open>task_out\<close>,
  labelled with the number of links, in the colour of the source task, dashed or not.
\<close>

definition edge :: "crow \<Rightarrow> bool \<Rightarrow> string" where
  "edge l dashed =
    TAB # '' '' @ task_in l @ ''->'' @ task_out l @ ''[label='' @ format_i (number_link l)
      @ '',color='' @ task_colour l @ (if dashed then '',style=dashed'' else [])
      @ '',fontcolor='' @ task_colour l @ '']\<newline>''"

text \<open>The line that opens the subgraph block of a cluster, and the lines of this form.\<close>

definition subgraph_line :: "string \<Rightarrow> string" where
  "subgraph_line cluster = TAB # '' subgraph cluster'' @ cluster @ '' {\<newline>''"

definition is_subgraph_line :: "string \<Rightarrow> bool" where
  "is_subgraph_line s = startswith s (TAB # '' subgraph cluster'')"

subsection \<open>Example tables and worlds\<close>

text \<open>A row with the given tasks, clusters and rank; the other columns are fixed.\<close>

definition example_row :: "string \<Rightarrow> string \<Rightarrow> string \<Rightarrow> string \<Rightarrow> int \<Rightarrow> row" where
  "example_row ta tb ca cb rank =
    \<lparr>task_in = ta, task_out = tb, implicit_in = 0, implicit_out = 0, mpi_in = 0, mpi_out = 0,
     cluster_in = ca, cluster_out = cb, number_link = 1, number_rank = rank,
     task_in_is_top = 1, task_in_is_hydro_super = 0, task_in_is_grav_super = 0,
     task_out_is_top = 1, task_out_is_hydro_super = 0, task_out_is_grav_super = 0,
     cell_has_active_task = 1\<rparr>"

text \<open>
  A world with the given flags on the command line and the given input files, each with its
  name (ending in \<^verbatim>\<open>.csv\<close>), its first line and its table; the renderer succeeds.
\<close>

definition example_world :: "bool \<Rightarrow> bool \<Rightarrow> (string \<times> string \<times> row list) list \<Rightarrow> world" where
  "example_world c l fs =
    \<lparr>parser_parse_args = Inr \<lparr>with_calls = c, with_levels = l, files = map fst fs\<rparr>,
     path_exists = (\<lambda>f. f \<in> set (map fst fs)),
     path_splitext = (\<lambda>f. (take (length f - 4) f, drop (length f - 4) f)),
     open_readline =
       (\<lambda>f. case map_of fs f of None \<Rightarrow> Inl (FileNotFoundError f) | Some (line, t) \<Rightarrow> Inr line),
     read_csv =
       (\<lambda>f. case map_of fs f of None \<Rightarrow> Inl (FileNotFoundError f) | Some (line, t) \<Rightarrow> Inr t),
     call = (\<lambda>args. Inr 0)\<rparr>"

text \<open>A coloured row, black as \<^verbatim>\<open>set_task_colours\<close> colours a task of no subsystem.\<close>

definition example_crow :: "string \<Rightarrow> string \<Rightarrow> int \<Rightarrow> crow" where
  "example_crow ta tb rank =
    row.extend (example_row ta tb ''None'' ''None'' rank) (crow.fields ''black'')"

section \<open>Properties\<close>

subsection \<open>Strings and the colour table\<close>

lemma str_in_Nil [simp]: "str_in [] s"
  by (cases s) simp_all

lemma str_in_iff_sublist: "str_in sub s \<longleftrightarrow> (\<exists>p q. s = p @ sub @ q)"
proof (induction s)
  case Nil
  then show ?case by auto
next
  case (Cons c cs)
  show ?case
  proof
    assume "str_in sub (c # cs)"
    then consider "prefix sub (c # cs)" | "str_in sub cs" by auto
    then show "\<exists>p q. c # cs = p @ sub @ q"
    proof cases
      case 1
      then obtain q where "c # cs = sub @ q" by (auto simp: prefix_def)
      then have "c # cs = [] @ sub @ q" by simp
      then show ?thesis by blast
    next
      case 2
      with Cons.IH obtain p q where "cs = p @ sub @ q" by blast
      then have "c # cs = (c # p) @ sub @ q" by simp
      then show ?thesis by blast
    qed
  next
    assume "\<exists>p q. c # cs = p @ sub @ q"
    then obtain p q where pq: "c # cs = p @ sub @ q" by blast
    show "str_in sub (c # cs)"
    proof (cases p)
      case Nil
      with pq have "prefix sub (c # cs)" by (simp add: prefix_def)
      then show ?thesis by simp
    next
      case (Cons a p')
      with pq have "cs = p' @ sub @ q" by simp
      with Cons.IH have "str_in sub cs" by blast
      then show ?thesis by simp
    qed
  qed
qed

lemma task_colours_lookup:
  "dict_get task_colours ''black_holes'' = Inr ''forestgreen''"
  "dict_get task_colours ''stars'' = Inr ''darkorange1''"
  "dict_get task_colours ''hydro'' = Inr ''blue3''"
  "dict_get task_colours ''gravity'' = Inr ''red3''"
  "dict_get task_colours ''RT'' = Inr ''springgreen''"
  "dict_get task_colours ''sink'' = Inr ''lightseagreen''"
  by (simp_all add: dict_get_def task_colours_def)

subsection \<open>The classifier and the node writer do not raise\<close>

lemma get_task_colour_total: "\<exists>c. get_task_colour name = Inr c"
  by (simp add: get_task_colour_def task_colours_lookup)

lemma set_task_colours_total:
  "\<exists>cdata. set_task_colours data = Inr cdata \<and> map row.truncate cdata = data
     \<and> list_all2 (\<lambda>r l. get_task_colour (task_in r) = Inr (task_colour l)) data cdata"
proof (induction data)
  case Nil
  show ?case by simp
next
  case (Cons r rs)
  then obtain cs where cs: "set_task_colours rs = Inr cs" "map row.truncate cs = rs"
    "list_all2 (\<lambda>r l. get_task_colour (task_in r) = Inr (task_colour l)) rs cs"
    by blast
  obtain c where c: "get_task_colour (task_in r) = Inr c"
    using get_task_colour_total by blast
  have "row.truncate (row.extend r (crow.fields c)) = r"
    by (simp add: row.defs)
  moreover have "task_colour (row.extend r (crow.fields c)) = c"
    by (simp add: row.defs crow.defs)
  ultimately show ?case
    using cs c by simp
qed

lemma write_task_appends:
  "\<exists>txt. \<forall>f. write_task f name im mp tp hs gs ac wc wl = (f @ [txt], None)"
proof -
  obtain c where c: "get_task_colour name = Inr c"
    using get_task_colour_total by blast
  show ?thesis
    unfolding write_task_def Let_def c by simp
qed

lemma write_task_declares:
  "\<exists>tx. write_task f name im mp tp hs gs ac (with_calls opt) (with_levels opt) = (f @ [tx], None)
     \<and> declares opt name tx"
proof -
  obtain tx where t: "\<forall>f. write_task f name im mp tp hs gs ac (with_calls opt) (with_levels opt)
      = (f @ [tx], None)"
    using write_task_appends by blast
  then have "write_task [] name im mp tp hs gs ac (with_calls opt) (with_levels opt) = ([tx], None)"
    by simp
  then have "declares opt name tx"
    unfolding declares_def by blast
  with t show ?thesis by blast
qed

subsection \<open>The two loops of the header\<close>

lemma write_header_task_in_spec:
  "\<exists>new decls. write_header_task_in opt rs f written = (f @ decls, written @ new, None)
     \<and> distinct new \<and> set new = task_in ` set rs - set written
     \<and> list_all2 (declares opt) new decls"
proof (induction rs arbitrary: f written)
  case Nil
  show ?case by simp
next
  case (Cons r rs)
  show ?case
  proof (cases "task_in r \<in> set written")
    case True
    obtain new decls where n:
      "write_header_task_in opt rs f written = (f @ decls, written @ new, None)"
      "distinct new" "set new = task_in ` set rs - set written"
      "list_all2 (declares opt) new decls"
      using Cons.IH by blast
    have "set new = task_in ` set (r # rs) - set written"
      using n(3) True by auto
    with n True show ?thesis by auto
  next
    case False
    obtain tx where t:
      "write_task f (task_in r) (implicit_in r) (mpi_in r) (task_in_is_top r = 1)
         (task_in_is_hydro_super r = 1) (task_in_is_grav_super r = 1) True
         (with_calls opt) (with_levels opt) = (f @ [tx], None)"
      "declares opt (task_in r) tx"
      using write_task_declares by blast
    obtain new decls where n:
      "write_header_task_in opt rs (f @ [tx]) (written @ [task_in r])
         = ((f @ [tx]) @ decls, (written @ [task_in r]) @ new, None)"
      "distinct new" "set new = task_in ` set rs - set (written @ [task_in r])"
      "list_all2 (declares opt) new decls"
      using Cons.IH by blast
    have run: "write_header_task_in opt (r # rs) f written
        = (f @ (tx # decls), written @ (task_in r # new), None)"
      using False t(1) n(1) by (simp add: Let_def)
    have d: "distinct (task_in r # new)"
      using n(2,3) by auto
    have s: "set (task_in r # new) = task_in ` set (r # rs) - set written"
      using n(3) False by auto
    have l: "list_all2 (declares opt) (task_in r # new) (tx # decls)"
      using t(2) n(4) by simp
    from run d s l show ?thesis by blast
  qed
qed

lemma write_header_task_out_spec:
  "\<exists>new decls. write_header_task_out opt rs f written = (f @ decls, written @ new, None)
     \<and> distinct new \<and> set new = task_out ` set rs - set written
     \<and> list_all2 (declares opt) new decls"
proof (induction rs arbitrary: f written)
  case Nil
  show ?case by simp
next
  case (Cons r rs)
  show ?case
  proof (cases "task_out r \<in> set written")
    case True
    obtain new decls where n:
      "write_header_task_out opt rs f written = (f @ decls, written @ new, None)"
      "distinct new" "set new = task_out ` set rs - set written"
      "list_all2 (declares opt) new decls"
      using Cons.IH by blast
    have "set new = task_out ` set (r # rs) - set written"
      using n(3) True by auto
    with n True show ?thesis by auto
  next
    case False
    obtain tx where t:
      "write_task f (task_out r) (implicit_out r) (mpi_out r) (task_out_is_top r = 1)
         (task_out_is_hydro_super r = 1) (task_out_is_grav_super r = 1)
         (cell_has_active_task r = 1) (with_calls opt) (with_levels opt) = (f @ [tx], None)"
      "declares opt (task_out r) tx"
      using write_task_declares by blast
    obtain new decls where n:
      "write_header_task_out opt rs (f @ [tx]) (written @ [task_out r])
         = ((f @ [tx]) @ decls, (written @ [task_out r]) @ new, None)"
      "distinct new" "set new = task_out ` set rs - set (written @ [task_out r])"
      "list_all2 (declares opt) new decls"
      using Cons.IH by blast
    have run: "write_header_task_out opt (r # rs) f written
        = (f @ (tx # decls), written @ (task_out r # new), None)"
      using False t(1) n(1) by (simp add: Let_def)
    have d: "distinct (task_out r # new)"
      using n(2,3) by auto
    have s: "set (task_out r # new) = task_out ` set (r # rs) - set written"
      using n(3) False by auto
    have l: "list_all2 (declares opt) (task_out r # new) (tx # decls)"
      using t(2) n(4) by simp
    from run d s l show ?thesis by blast
  qed
qed

lemma write_header_lines_append: "write_header_lines f git = f @ write_header_lines [] git"
  by (simp add: write_header_lines_def)

subsection \<open>The loop over the dependencies\<close>

lemma edge_dashed_differs: "edge l True \<noteq> edge l False"
proof
  assume "edge l True = edge l False"
  then have "length (edge l True) = length (edge l False)" by simp
  then show False by (simp add: edge_def)
qed

lemma write_dependencies_rows_spec:
  "\<exists>n\<le>length ls.
     write_dependencies_rows m ls f written
       = (f @ map (\<lambda>l. edge l (Some (number_rank l) \<noteq> m)) (take n ls),
          if n = length ls then None else Some (Exception ''Found two same task dependencies''))
     \<and> (n = length ls \<longleftrightarrow>
          distinct (map dependency_key ls) \<and> set (map dependency_key ls) \<inter> set written = {})"
proof (induction ls arbitrary: f written)
  case Nil
  show ?case by simp
next
  case (Cons l ls)
  show ?case
  proof (cases "dependency_key l \<in> set written")
    case True
    then have "write_dependencies_rows m (l # ls) f written
        = (f, Some (Exception ''Found two same task dependencies''))"
      by (simp add: dependency_key_def)
    with True show ?thesis
      by (intro exI [of _ 0]) auto
  next
    case False
    let ?f = "f @ [edge l (Some (number_rank l) \<noteq> m)]"
    let ?w = "written @ [dependency_key l]"
    obtain n where n: "n \<le> length ls"
      "write_dependencies_rows m ls ?f ?w
        = (?f @ map (\<lambda>l. edge l (Some (number_rank l) \<noteq> m)) (take n ls),
           if n = length ls then None else Some (Exception ''Found two same task dependencies''))"
      "n = length ls \<longleftrightarrow>
         distinct (map dependency_key ls) \<and> set (map dependency_key ls) \<inter> set ?w = {}"
      using Cons.IH by blast
    have step: "write_dependencies_rows m (l # ls) f written = write_dependencies_rows m ls ?f ?w"
      using False by (simp add: dependency_key_def edge_def Let_def)
    have run: "write_dependencies_rows m (l # ls) f written
        = (f @ map (\<lambda>l. edge l (Some (number_rank l) \<noteq> m)) (take (Suc n) (l # ls)),
           if Suc n = length (l # ls) then None
           else Some (Exception ''Found two same task dependencies''))"
      using step n(2) by simp
    have iff: "Suc n = length (l # ls) \<longleftrightarrow>
        distinct (map dependency_key (l # ls))
          \<and> set (map dependency_key (l # ls)) \<inter> set written = {}"
      using n(3) False by auto
    have "Suc n \<le> length (l # ls)"
      using n(1) by simp
    with run iff show ?thesis by blast
  qed
qed

lemma series_max_Max:
  assumes "xs \<noteq> []"
  shows "series_max xs = Some (Max (set xs))"
proof (cases xs)
  case Nil
  with assms show ?thesis by simp
next
  case (Cons x ys)
  have "Max (set (x # ys)) = fold max ys x"
    by (rule Max.set_eq_fold)
  with Cons show ?thesis
    unfolding series_max_def by simp
qed

lemma write_dependencies_raises_iff:
  "snd (write_dependencies f data) =
    (if distinct (map dependency_key data) then None
     else Some (Exception ''Found two same task dependencies''))"
proof -
  let ?m = "series_max (map number_rank data)"
  let ?f = "f @ [TAB # '' # Dependencies\<newline>'']"
  obtain n where n: "n \<le> length data"
    "write_dependencies_rows ?m data ?f []
      = (?f @ map (\<lambda>l. edge l (Some (number_rank l) \<noteq> ?m)) (take n data),
         if n = length data then None else Some (Exception ''Found two same task dependencies''))"
    "n = length data \<longleftrightarrow>
       distinct (map dependency_key data) \<and> set (map dependency_key data) \<inter> set [] = {}"
    using write_dependencies_rows_spec by blast
  show ?thesis
    using n(2,3) by (simp add: write_dependencies_def)
qed

lemma duplicate_pair_raises:
  assumes "i < j" and "j < length data"
    and "task_in (data ! i) = task_in (data ! j)" and "task_out (data ! i) = task_out (data ! j)"
  shows "snd (write_dependencies f data)
    = Some (Exception ''Found two same task dependencies'')"
proof -
  let ?keys = "map dependency_key data"
  have "?keys ! i = ?keys ! j"
    using assms by (simp add: dependency_key_def)
  moreover have "i < length ?keys" and "j < length ?keys" and "i \<noteq> j"
    using assms by simp_all
  ultimately have "\<not> distinct ?keys"
    using nth_eq_iff_index_eq by blast
  then show ?thesis
    by (simp add: write_dependencies_raises_iff)
qed

subsection \<open>The loop over the clusters\<close>

lemma fold_write_append: "fold (\<lambda>t f. f @ [g t]) ts f = f @ map g ts"
  by (induction ts arbitrary: f) simp_all

lemma write_cluster_append:
  "write_cluster f tasks cluster = f @ write_cluster [] tasks cluster"
  by (simp add: write_cluster_def fold_write_append)

lemma write_cluster_subgraph_lines:
  "filter is_subgraph_line (write_cluster [] tasks cluster) = [subgraph_line cluster]"
proof -
  have "filter is_subgraph_line (map (\<lambda>t. [TAB, TAB] @ '' '' @ t @ '';\<newline>'') tasks) = []"
    by (induction tasks) (simp_all add: is_subgraph_line_def startswith_def)
  then show ?thesis
    by (simp add: write_cluster_def fold_write_append is_subgraph_line_def startswith_def
        subgraph_line_def)
qed

lemma fold_clusters:
  "fold (\<lambda>cluster f. if cluster = ''None'' then f else write_cluster f (tasks cluster) cluster)
      cs f
    = f @ concat (map (\<lambda>c. write_cluster [] (tasks c) c) (filter (\<lambda>c. c \<noteq> ''None'') cs))"
proof (induction cs arbitrary: f)
  case Nil
  show ?case by simp
next
  case (Cons c cs)
  show ?case
    using Cons.IH [of f] Cons.IH [of "write_cluster f (tasks c) c"]
      write_cluster_append [of f "tasks c" c]
    by simp
qed

lemma filter_concat_clusters:
  "filter is_subgraph_line (concat (map (\<lambda>c. write_cluster [] (tasks c) c) cs))
    = map subgraph_line cs"
  by (induction cs) (simp_all add: write_cluster_subgraph_lines)

lemma subgraph_line_inj: "subgraph_line c = subgraph_line d \<Longrightarrow> c = d"
  by (simp add: subgraph_line_def)

subsection \<open>What the writers append\<close>

lemma write_header_total:
  "\<exists>rest. write_header f data git opt = (f @ write_header_lines [] git @ rest, None)"
proof -
  obtain n1 d1 where a:
    "write_header_task_in opt data (write_header_lines f git) []
       = (write_header_lines f git @ d1, [] @ n1, None)"
    using write_header_task_in_spec by blast
  obtain n2 d2 where b:
    "write_header_task_out opt data (write_header_lines f git @ d1) ([] @ n1)
       = ((write_header_lines f git @ d1) @ d2, ([] @ n1) @ n2, None)"
    using write_header_task_out_spec by blast
  have "write_header f data git opt
      = (f @ write_header_lines [] git @ (d1 @ d2 @ [''\<newline>'']), None)"
    using a b write_header_lines_append [of f git]
    by (simp add: write_header_def Let_def)
  then show ?thesis by blast
qed

lemma write_clusters_append: "\<exists>sec. write_clusters f data = f @ sec"
  unfolding write_clusters_def Let_def by (simp add: fold_clusters)

lemma write_dependencies_result:
  "\<exists>es. write_dependencies f data
     = (f @ es, if distinct (map dependency_key data) then None
                else Some (Exception ''Found two same task dependencies''))"
proof -
  let ?m = "series_max (map number_rank data)"
  let ?f = "f @ [TAB # '' # Dependencies\<newline>'']"
  obtain n where n: "n \<le> length data"
    "write_dependencies_rows ?m data ?f []
      = (?f @ map (\<lambda>l. edge l (Some (number_rank l) \<noteq> ?m)) (take n data),
         if n = length data then None else Some (Exception ''Found two same task dependencies''))"
    "n = length data \<longleftrightarrow>
       distinct (map dependency_key data) \<and> set (map dependency_key data) \<inter> set [] = {}"
    using write_dependencies_rows_spec by blast
  have "write_dependencies f data
     = (f @ ([TAB # '' # Dependencies\<newline>'']
          @ map (\<lambda>l. edge l (Some (number_rank l) \<noteq> ?m)) (take n data)),
        if distinct (map dependency_key data) then None
        else Some (Exception ''Found two same task dependencies''))"
    using n(2,3) by (simp add: write_dependencies_def)
  then show ?thesis by blast
qed

lemma dependency_key_truncate: "dependency_key (row.truncate l) = dependency_key l"
  by (simp add: dependency_key_def row.defs)

lemma dependency_keys_coloured:
  assumes "map row.truncate cdata = data"
  shows "map dependency_key cdata = map dependency_key data"
proof -
  have "map dependency_key data = map (dependency_key \<circ> row.truncate) cdata"
    using assms by auto
  then show ?thesis
    by (simp add: comp_def dependency_key_truncate)
qed

subsection \<open>The version reader on one line\<close>

lemma get_git_version_no_comment:
  assumes "open_readline w f = Inr line" and "line \<noteq> []" and "hd line \<noteq> CHR ''#''"
  shows "get_git_version w f git = Inr None"
  using assms by (cases line) (simp_all add: get_git_version_def)

lemma get_git_version_empty_line:
  assumes "open_readline w f = Inr []"
  shows "get_git_version w f git = Inl IndexError"
  using assms by (simp add: get_git_version_def)

lemma get_git_version_mismatch:
  assumes "open_readline w f = Inr (CHR ''#'' # rest)" and "g \<noteq> rstrip (drop 1 rest)"
  shows "get_git_version w f (Some g) = Inl (Exception ''Files were not produced by the same version'')"
  using assms by (simp add: get_git_version_def Let_def)

subsection \<open>The example rows\<close>

lemma example_crow_simps:
  "task_in (example_crow ta tb rank) = ta"
  "task_out (example_crow ta tb rank) = tb"
  "number_rank (example_crow ta tb rank) = rank"
  "number_link (example_crow ta tb rank) = 1"
  "task_colour (example_crow ta tb rank) = ''black''"
  by (simp_all add: example_crow_def example_row_def row.defs crow.defs)

subsection \<open>Classification\<close>

text \<open>
  C4. A task name that contains \<^verbatim>\<open>bh\<close>, \<^verbatim>\<open>bpart\<close> or \<^verbatim>\<open>swallow\<close> is coloured as a black-hole
  task, the entry \<^verbatim>\<open>black_holes\<close> of the colour table, whatever else the name contains.
  (By \<open>str_in_iff_sublist\<close>, \<open>str_in sub s\<close> says that \<open>s = p @ sub @ q\<close> for some \<open>p\<close>
  and \<open>q\<close>.)
\<close>

theorem black_holes_first:
  assumes "str_in ''bh'' name \<or> str_in ''bpart'' name \<or> str_in ''swallow'' name"
  shows "get_task_colour name = dict_get task_colours ''black_holes''
    \<and> get_task_colour name = Inr ''forestgreen''"
  using assms
  by (simp add: get_task_colour_def task_is_black_holes_def task_colours_lookup)

theorem black_holes_first_witness:
  "(str_in ''bh'' ''stars_density_bh_grav'' \<or> str_in ''bpart'' ''stars_density_bh_grav''
      \<or> str_in ''swallow'' ''stars_density_bh_grav'')
    \<and> get_task_colour ''stars_density_bh_grav'' = dict_get task_colours ''black_holes''
    \<and> get_task_colour ''stars_density_bh_grav'' = Inr ''forestgreen''"
proof -
  have h: "str_in ''bh'' ''stars_density_bh_grav'' \<or> str_in ''bpart'' ''stars_density_bh_grav''
      \<or> str_in ''swallow'' ''stars_density_bh_grav''"
    by simp
  show ?thesis
    using h black_holes_first [OF h] by blast
qed

text \<open>
  C5. A task name that contains \<^verbatim>\<open>grav\<close> or \<^verbatim>\<open>gpart\<close> and that none of the earlier
  predicates (black holes, stars, hydro) accepts is coloured as a gravity task.
\<close>

theorem gravity_unless_overridden:
  assumes "str_in ''grav'' name \<or> str_in ''gpart'' name"
    and "\<not> task_is_black_holes name" and "\<not> task_is_stars name" and "\<not> task_is_hydro name"
  shows "get_task_colour name = dict_get task_colours ''gravity''
    \<and> get_task_colour name = Inr ''red3''"
  using assms
  by (auto simp: get_task_colour_def task_is_gravity_def task_colours_lookup)

theorem gravity_unless_overridden_witness:
  "(str_in ''grav'' ''drift_gpart'' \<or> str_in ''gpart'' ''drift_gpart'')
    \<and> \<not> task_is_black_holes ''drift_gpart'' \<and> \<not> task_is_stars ''drift_gpart''
    \<and> \<not> task_is_hydro ''drift_gpart''
    \<and> get_task_colour ''drift_gpart'' = dict_get task_colours ''gravity''
    \<and> get_task_colour ''drift_gpart'' = Inr ''red3''"
proof -
  have h1: "str_in ''grav'' ''drift_gpart'' \<or> str_in ''gpart'' ''drift_gpart''"
    by simp
  have h2: "\<not> task_is_black_holes ''drift_gpart''"
    by (simp add: task_is_black_holes_def)
  have h3: "\<not> task_is_stars ''drift_gpart''"
    by (simp add: task_is_stars_def)
  have h4: "\<not> task_is_hydro ''drift_gpart''"
    by (simp add: task_is_hydro_def)
  show ?thesis
    using h1 h2 h3 h4 gravity_unless_overridden [OF h1 h2 h3 h4] by blast
qed

text \<open>
  C8. The classifier returns a colour for every task name (no dictionary lookup fails), one
  of the six colours of the table or \<^verbatim>\<open>black\<close>, and a name that none of the six predicates
  accepts gets the default colour \<^verbatim>\<open>black\<close>.
\<close>

theorem classifier_total_default:
  "(\<exists>c. get_task_colour name = Inr c \<and> c \<in> set (''black'' # map snd task_colours))
    \<and> (\<not> task_is_black_holes name \<and> \<not> task_is_stars name \<and> \<not> task_is_hydro name
        \<and> \<not> task_is_gravity name \<and> \<not> task_is_RT name \<and> \<not> task_is_sink name
      \<longrightarrow> get_task_colour name = Inr ''black'')"
proof
  define known where "known = set (''black'' # map snd task_colours)"
  have m: "''forestgreen'' \<in> known" "''darkorange1'' \<in> known" "''blue3'' \<in> known"
    "''red3'' \<in> known" "''springgreen'' \<in> known" "''lightseagreen'' \<in> known"
    "''black'' \<in> known"
    by (simp_all add: known_def task_colours_def)
  have "\<exists>c. get_task_colour name = Inr c \<and> c \<in> known"
    by (simp add: get_task_colour_def task_colours_lookup m)
  then show "\<exists>c. get_task_colour name = Inr c \<and> c \<in> set (''black'' # map snd task_colours)"
    unfolding known_def .
  show "\<not> task_is_black_holes name \<and> \<not> task_is_stars name \<and> \<not> task_is_hydro name
        \<and> \<not> task_is_gravity name \<and> \<not> task_is_RT name \<and> \<not> task_is_sink name
      \<longrightarrow> get_task_colour name = Inr ''black''"
    by (simp add: get_task_colour_def)
qed

theorem classifier_total_default_witness:
  "\<not> task_is_black_holes ''timestep'' \<and> \<not> task_is_stars ''timestep''
    \<and> \<not> task_is_hydro ''timestep'' \<and> \<not> task_is_gravity ''timestep''
    \<and> \<not> task_is_RT ''timestep'' \<and> \<not> task_is_sink ''timestep''
    \<and> get_task_colour ''timestep'' = Inr ''black''"
proof -
  have h: "\<not> task_is_black_holes ''timestep'' \<and> \<not> task_is_stars ''timestep''
    \<and> \<not> task_is_hydro ''timestep'' \<and> \<not> task_is_gravity ''timestep''
    \<and> \<not> task_is_RT ''timestep'' \<and> \<not> task_is_sink ''timestep''"
    by (simp add: task_is_black_holes_def task_is_stars_def task_is_hydro_def
        task_is_gravity_def task_is_RT_def task_is_sink_def startswith_def)
  show ?thesis
    using h classifier_total_default [of "''timestep''"] by blast
qed

subsection \<open>The command line\<close>

text \<open>
  C7. When the command line sets both \<^verbatim>\<open>--with-calls\<close> and \<^verbatim>\<open>--with-levels\<close>,
  \<^verbatim>\<open>parse_args\<close> raises: the \<^verbatim>\<open>ValueError\<close> of the two flags when every file exists, the
  \<^verbatim>\<open>FileNotFoundError\<close> of the earlier check otherwise. With at most one of the flags it
  never raises that \<^verbatim>\<open>ValueError\<close>, and it returns when every file exists.
\<close>

theorem flags_mutually_exclusive:
  assumes "parser_parse_args w = Inr args"
  shows "(with_calls args \<and> with_levels args \<longrightarrow>
            (\<exists>e. parse_args w = Inl e)
            \<and> (list_all (path_exists w) (files args) \<longrightarrow>
                parse_args w = Inl (ValueError [''I can't run with --with-calls and'',
                                               '' --with-levels simultaneously. Pick one!''])))
       \<and> (\<not> (with_calls args \<and> with_levels args) \<longrightarrow>
            (\<forall>msg. parse_args w \<noteq> Inl (ValueError msg))
            \<and> (list_all (path_exists w) (files args) \<longrightarrow> parse_args w = Inr (args, files args)))"
  using assms by (auto simp: parse_args_def list_ex_iff list_all_iff)

theorem flags_mutually_exclusive_witness:
  "parse_args (example_world True True [(''a.csv'', ''# v1\<newline>'', [])])
      = Inl (ValueError [''I can't run with --with-calls and'',
                         '' --with-levels simultaneously. Pick one!''])
   \<and> parse_args (example_world True False [(''a.csv'', ''# v1\<newline>'', [])])
      = Inr (\<lparr>with_calls = True, with_levels = False, files = [''a.csv'']\<rparr>, [''a.csv''])
   \<and> parse_args (example_world False True [(''a.csv'', ''# v1\<newline>'', [])])
      = Inr (\<lparr>with_calls = False, with_levels = True, files = [''a.csv'']\<rparr>, [''a.csv''])"
proof -
  let ?fs = "[(''a.csv'', ''# v1\<newline>'', [])]"
  have a: "parser_parse_args (example_world c l ?fs)
      = Inr \<lparr>with_calls = c, with_levels = l, files = [''a.csv'']\<rparr>" for c l
    by (simp add: example_world_def)
  have e: "list_all (path_exists (example_world c l ?fs))
      (files \<lparr>with_calls = c, with_levels = l, files = [''a.csv'']\<rparr>)" for c l
    by (simp add: example_world_def)
  show ?thesis
    using flags_mutually_exclusive [OF a [of True True]]
      flags_mutually_exclusive [OF a [of True False]]
      flags_mutually_exclusive [OF a [of False True]]
      e [of True True] e [of True False] e [of False True]
    by simp
qed

subsection \<open>Node declarations of the header\<close>

text \<open>
  C9. \<^verbatim>\<open>write_header\<close> never raises and writes, after its fixed lines, one node declaration
  for each task name of the columns \<^verbatim>\<open>task_in\<close> and \<^verbatim>\<open>task_out\<close>: the declared names are
  pairwise distinct and are exactly the names of the two columns.
\<close>

theorem one_declaration_per_task:
  "\<exists>written decls.
     write_header f data git opt
       = (f @ write_header_lines [] git @ decls @ [''\<newline>''], None)
     \<and> distinct written
     \<and> set written = task_in ` set data \<union> task_out ` set data
     \<and> list_all2 (declares opt) written decls"
proof -
  obtain n1 d1 where a:
    "write_header_task_in opt data (write_header_lines f git) []
       = (write_header_lines f git @ d1, [] @ n1, None)"
    "distinct n1" "set n1 = task_in ` set data - set []"
    "list_all2 (declares opt) n1 d1"
    using write_header_task_in_spec by blast
  obtain n2 d2 where b:
    "write_header_task_out opt data (write_header_lines f git @ d1) ([] @ n1)
       = ((write_header_lines f git @ d1) @ d2, ([] @ n1) @ n2, None)"
    "distinct n2" "set n2 = task_out ` set data - set ([] @ n1)"
    "list_all2 (declares opt) n2 d2"
    using write_header_task_out_spec by blast
  have run: "write_header f data git opt
      = (f @ write_header_lines [] git @ (d1 @ d2) @ [''\<newline>''], None)"
    using a(1) b(1) write_header_lines_append [of f git]
    by (simp add: write_header_def Let_def)
  have d: "distinct (n1 @ n2)"
    using a(2) b(2,3) by auto
  have s: "set (n1 @ n2) = task_in ` set data \<union> task_out ` set data"
    using a(3) b(3) by auto
  have l: "list_all2 (declares opt) (n1 @ n2) (d1 @ d2)"
    using a(4) b(4) by (rule list_all2_appendI)
  from run d s l show ?thesis by blast
qed

theorem one_declaration_per_task_witness:
  "\<exists>written decls.
     write_header [] [example_row ''kick1'' ''timestep'' ''None'' ''None'' 1,
                      example_row ''timestep'' ''kick2'' ''None'' ''None'' 1,
                      example_row ''kick1'' ''kick2'' ''None'' ''None'' 1] None
         \<lparr>with_calls = False, with_levels = False, files = []\<rparr>
       = (write_header_lines [] None @ decls @ [''\<newline>''], None)
     \<and> set written = {''kick1'', ''timestep'', ''kick2''}
     \<and> length written = 3 \<and> length decls = 3"
proof -
  let ?data = "[example_row ''kick1'' ''timestep'' ''None'' ''None'' 1,
                example_row ''timestep'' ''kick2'' ''None'' ''None'' 1,
                example_row ''kick1'' ''kick2'' ''None'' ''None'' 1]"
  let ?opt = "\<lparr>with_calls = False, with_levels = False, files = []\<rparr>"
  obtain written decls where w:
    "write_header [] ?data None ?opt
      = ([] @ write_header_lines [] None @ decls @ [''\<newline>''], None)"
    "distinct written" "set written = task_in ` set ?data \<union> task_out ` set ?data"
    "list_all2 (declares ?opt) written decls"
    using one_declaration_per_task [of "[]" ?data None ?opt] by blast
  have s: "set written = {''kick1'', ''timestep'', ''kick2''}"
    using w(3) by (auto simp: example_row_def)
  have "card (set written) = 3"
    unfolding s by simp
  then have l: "length written = 3"
    using w(2) by (simp add: distinct_card)
  then have "length decls = 3"
    using w(4) by (auto dest: list_all2_lengthD)
  with w(1) s l show ?thesis by auto
qed

subsection \<open>Edges\<close>

text \<open>
  C6. \<^verbatim>\<open>write_dependencies\<close> writes the edges of the rows in order, up to the first row whose
  key has been seen, and all of them when the keys are distinct. Each edge written is dashed
  if and only if the rank of its row differs from the largest rank of the table; a dashed
  edge and a plain one are different texts.
\<close>

theorem dashed_iff_not_max_rank:
  "(\<exists>n\<le>length data.
      fst (write_dependencies f data)
        = f @ [TAB # '' # Dependencies\<newline>'']
            @ map (\<lambda>l. edge l (number_rank l \<noteq> Max (set (map number_rank data)))) (take n data)
      \<and> (distinct (map dependency_key data) \<longrightarrow> n = length data))
   \<and> edge l True \<noteq> edge l False"
proof (cases "data = []")
  case True
  then show ?thesis
    using edge_dashed_differs [of l] by (simp add: write_dependencies_def series_max_def)
next
  case False
  let ?m = "series_max (map number_rank data)"
  let ?f = "f @ [TAB # '' # Dependencies\<newline>'']"
  have m: "?m = Some (Max (set (map number_rank data)))"
    using False by (simp add: series_max_Max)
  obtain n where n: "n \<le> length data"
    "write_dependencies_rows ?m data ?f []
      = (?f @ map (\<lambda>l. edge l (Some (number_rank l) \<noteq> ?m)) (take n data),
         if n = length data then None else Some (Exception ''Found two same task dependencies''))"
    "n = length data \<longleftrightarrow>
       distinct (map dependency_key data) \<and> set (map dependency_key data) \<inter> set [] = {}"
    using write_dependencies_rows_spec by blast
  have "fst (write_dependencies f data)
      = f @ [TAB # '' # Dependencies\<newline>'']
          @ map (\<lambda>l. edge l (number_rank l \<noteq> Max (set (map number_rank data)))) (take n data)"
    using n(2) unfolding m by (simp add: write_dependencies_def m)
  moreover have "distinct (map dependency_key data) \<longrightarrow> n = length data"
    using n(3) by simp
  ultimately show ?thesis
    using n(1) edge_dashed_differs [of l] by blast
qed

theorem dashed_iff_not_max_rank_witness:
  "fst (write_dependencies []
      [example_crow ''kick1'' ''timestep'' 1, example_crow ''timestep'' ''kick2'' 2,
       example_crow ''kick1'' ''kick2'' 3])
    = [TAB # '' # Dependencies\<newline>'',
       edge (example_crow ''kick1'' ''timestep'' 1) True,
       edge (example_crow ''timestep'' ''kick2'' 2) True,
       edge (example_crow ''kick1'' ''kick2'' 3) False]"
proof -
  let ?data = "[example_crow ''kick1'' ''timestep'' 1, example_crow ''timestep'' ''kick2'' 2,
       example_crow ''kick1'' ''kick2'' 3]"
  have d: "distinct (map dependency_key ?data)"
    by (simp add: dependency_key_def example_crow_simps)
  have m: "Max (set (map number_rank ?data)) = 3"
    by (simp add: example_crow_simps)
  obtain n where n: "n \<le> length ?data"
    "fst (write_dependencies [] ?data)
      = [] @ [TAB # '' # Dependencies\<newline>'']
          @ map (\<lambda>l. edge l (number_rank l \<noteq> Max (set (map number_rank ?data)))) (take n ?data)"
    "distinct (map dependency_key ?data) \<longrightarrow> n = length ?data"
    using dashed_iff_not_max_rank [of ?data "[]"] by blast
  from n(3) d have "n = 3" by simp
  with n(2) show ?thesis
    unfolding m by (simp add: example_crow_simps)
qed

subsection \<open>Subgraph blocks\<close>

text \<open>
  C2, as amended. \<^verbatim>\<open>write_clusters\<close> appends a section that has one subgraph block for each
  distinct value of the columns \<^verbatim>\<open>cluster_in\<close> and \<^verbatim>\<open>cluster_out\<close> other than \<^verbatim>\<open>None\<close>
  (with a capital N), in sorted order, and no other subgraph block.
\<close>

theorem one_subgraph_per_cluster:
  "\<exists>cs section.
     write_clusters f data = f @ section
     \<and> filter is_subgraph_line section = map subgraph_line cs
     \<and> sorted cs \<and> distinct cs \<and> distinct (map subgraph_line cs)
     \<and> set cs = (cluster_in ` set data \<union> cluster_out ` set data) - {''None''}"
proof -
  let ?all = "np_unique (concat (map (\<lambda>r. [cluster_in r, cluster_out r]) data))"
  let ?cs = "filter (\<lambda>c. c \<noteq> ''None'') ?all"
  let ?tasks = "\<lambda>c. np_unique (map task_in (filter (\<lambda>r. cluster_in r = c) data)
      @ map task_out (filter (\<lambda>r. cluster_out r = c) data))"
  let ?section = "[TAB # '' # Clusters\<newline>'']
      @ concat (map (\<lambda>c. write_cluster [] (?tasks c) c) ?cs) @ [''\<newline>'']"
  have run: "write_clusters f data = f @ ?section"
    unfolding write_clusters_def Let_def by (simp add: fold_clusters)
  have lines: "filter is_subgraph_line ?section = map subgraph_line ?cs"
    by (simp add: filter_concat_clusters is_subgraph_line_def startswith_def)
  have s: "sorted ?cs"
    by (simp add: np_unique_def sorted_wrt_filter)
  have d: "distinct ?cs"
    by (simp add: np_unique_def)
  have dl: "distinct (map subgraph_line ?cs)"
    using d by (simp add: distinct_map inj_on_def subgraph_line_def)
  have m: "set ?cs = (cluster_in ` set data \<union> cluster_out ` set data) - {''None''}"
    by (auto simp: np_unique_def)
  from run lines s d dl m show ?thesis by blast
qed

theorem one_subgraph_per_cluster_witness:
  "filter is_subgraph_line
      (write_clusters [] [example_row ''kick1'' ''timestep'' ''None'' ''clusterA'' 1,
                          example_row ''timestep'' ''kick2'' ''clusterA'' ''clusterB'' 1])
    = [subgraph_line ''clusterA'', subgraph_line ''clusterB'']"
proof -
  let ?data = "[example_row ''kick1'' ''timestep'' ''None'' ''clusterA'' 1,
                example_row ''timestep'' ''kick2'' ''clusterA'' ''clusterB'' 1]"
  obtain cs sec where c:
    "write_clusters [] ?data = [] @ sec"
    "filter is_subgraph_line sec = map subgraph_line cs"
    "sorted cs" "distinct cs"
    "set cs = (cluster_in ` set ?data \<union> cluster_out ` set ?data) - {''None''}"
    using one_subgraph_per_cluster [of "[]" ?data] by blast
  have "set cs = {''clusterA'', ''clusterB''}"
    using c(5) by (auto simp: example_row_def)
  then have "set cs = set [''clusterA'', ''clusterB'']"
    by simp
  moreover have "sorted [''clusterA'', ''clusterB'']" and "distinct [''clusterA'', ''clusterB'']"
    by code_simp+
  ultimately have "cs = [''clusterA'', ''clusterB'']"
    using c(3,4) by (metis sorted_distinct_set_unique)
  with c(1,2) show ?thesis by simp
qed

text \<open>
  The claim as the specification states it, with the sentinel \<^verbatim>\<open>none\<close> in lower case, fails:
  a table whose cluster columns hold \<^verbatim>\<open>none\<close> and \<^verbatim>\<open>clusterA\<close> gets two subgraph blocks,
  one of them for \<^verbatim>\<open>none\<close>.
\<close>

theorem sentinel_none_counterexample:
  "filter is_subgraph_line
      (write_clusters [] [example_row ''kick1'' ''timestep'' ''none'' ''clusterA'' 1])
    = [subgraph_line ''clusterA'', subgraph_line ''none'']
   \<and> filter is_subgraph_line
      (write_clusters [] [example_row ''kick1'' ''timestep'' ''none'' ''clusterA'' 1])
    \<noteq> [subgraph_line ''clusterA'']"
  by (simp add: write_clusters_def write_cluster_def np_unique_def example_row_def
      is_subgraph_line_def subgraph_line_def startswith_def Let_def)

subsection \<open>The version of the input files\<close>

text \<open>
  C10. When the first line of an input file is not empty and does not start with \<^verbatim>\<open>#\<close>, the
  version reader returns \<^verbatim>\<open>None\<close>, whatever version it is given. The run of that file then
  writes a description that starts with the fixed header lines for the version \<^verbatim>\<open>None\<close>, and
  it ends without an error unless two rows have the same key or the renderer raises.
\<close>

theorem no_version_comment:
  assumes "open_readline w f = Inr line" and "line \<noteq> []" and "hd line \<noteq> CHR ''#''"
  shows "get_git_version w f git = Inr None
    \<and> write_header_lines [] None ! 2
        = TAB # '' label=\"Task dependencies for SWIFT None\";\<newline>''
    \<and> (\<forall>data. read_csv w f = Inr data \<longrightarrow>
         (\<exists>body st' err.
            main_file w args f st = (st', err)
            \<and> dot_files st'
                = dot_files st
                    @ [(fst (path_splitext w f) @ ''.dot'', write_header_lines [] None @ body)]
            \<and> err =
                (if \<not> distinct (map dependency_key data)
                   then Some (Exception ''Found two same task dependencies'')
                 else case call w [''dot'', ''-Tpng'', fst (path_splitext w f) @ ''.dot'', ''-o'',
                                   fst (path_splitext w f) @ ''.png''] of
                        Inl e \<Rightarrow> Some e
                      | Inr rc \<Rightarrow> None)))"
proof (intro conjI allI impI)
  show "get_git_version w f git = Inr None"
    using assms by (rule get_git_version_no_comment)
  show "write_header_lines [] None ! 2
      = TAB # '' label=\"Task dependencies for SWIFT None\";\<newline>''"
    by (simp add: write_header_lines_def format_s_def)
next
  fix data
  assume r: "read_csv w f = Inr data"
  let ?dot = "fst (path_splitext w f) @ ''.dot''"
  let ?png = "fst (path_splitext w f) @ ''.png''"
  let ?lines = "write_header_lines [] None"
  have g: "get_git_version w f None = Inr None"
    using assms by (rule get_git_version_no_comment)
  obtain cdata where c: "set_task_colours data = Inr cdata" "map row.truncate cdata = data"
    using set_task_colours_total by blast
  have k: "map dependency_key cdata = map dependency_key data"
    using c(2) by (rule dependency_keys_coloured)
  obtain rest where h: "write_header [] cdata None args = ([] @ ?lines @ rest, None)"
    using write_header_total by blast
  obtain sec where s: "write_clusters (?lines @ rest) cdata = (?lines @ rest) @ sec"
    using write_clusters_append by blast
  obtain es where d: "write_dependencies ((?lines @ rest) @ sec) cdata
      = (((?lines @ rest) @ sec) @ es,
         if distinct (map dependency_key cdata) then None
         else Some (Exception ''Found two same task dependencies''))"
    using write_dependencies_result by blast
  show "\<exists>body st' err.
      main_file w args f st = (st', err)
      \<and> dot_files st' = dot_files st @ [(?dot, ?lines @ body)]
      \<and> err =
          (if \<not> distinct (map dependency_key data)
             then Some (Exception ''Found two same task dependencies'')
           else case call w [''dot'', ''-Tpng'', ?dot, ''-o'', ?png] of
                  Inl e \<Rightarrow> Some e
                | Inr rc \<Rightarrow> None)"
  proof (cases "distinct (map dependency_key data)")
    case False
    then have "main_file w args f st
        = (st\<lparr>dot_files := dot_files st @ [(?dot, ?lines @ (rest @ sec @ es))]\<rparr>,
           Some (Exception ''Found two same task dependencies''))"
      using r g c(1) h s d k by (simp add: main_file_def Let_def)
    with False show ?thesis by simp
  next
    case True
    show ?thesis
    proof (cases "call w [''dot'', ''-Tpng'', ?dot, ''-o'', ?png]")
      case (Inl e)
      then have "main_file w args f st
          = (st\<lparr>dot_files := dot_files st
                @ [(?dot, ?lines @ (rest @ sec @ es @ [''}'']))]\<rparr>, Some e)"
        using True r g c(1) h s d k by (simp add: main_file_def Let_def write_footer_def)
      with True Inl show ?thesis by simp
    next
      case (Inr rc)
      then obtain st' where "main_file w args f st = (st', None)"
        "dot_files st' = dot_files st @ [(?dot, ?lines @ (rest @ sec @ es @ [''}'']))]"
        using True r g c(1) h s d k by (simp add: main_file_def Let_def write_footer_def)
      with True Inr show ?thesis by simp
    qed
  qed
qed

theorem no_version_comment_witness:
  "get_git_version
      (example_world False False
        [(''a.csv'', ''task_in,task_out\<newline>'', [example_row ''kick1'' ''timestep'' ''None'' ''None'' 1])])
      ''a.csv'' (Some ''v1'') = Inr None
   \<and> (\<exists>body st'.
        main_file
          (example_world False False
            [(''a.csv'', ''task_in,task_out\<newline>'',
              [example_row ''kick1'' ''timestep'' ''None'' ''None'' 1])])
          \<lparr>with_calls = False, with_levels = False, files = [''a.csv'']\<rparr> ''a.csv''
          \<lparr>dot_files = [], printed = []\<rparr> = (st', None)
        \<and> dot_files st' = [(''a.dot'', write_header_lines [] None @ body)])"
proof -
  let ?data = "[example_row ''kick1'' ''timestep'' ''None'' ''None'' 1]"
  let ?w = "example_world False False [(''a.csv'', ''task_in,task_out\<newline>'', ?data)]"
  let ?args = "\<lparr>with_calls = False, with_levels = False, files = [''a.csv'']\<rparr>"
  let ?st = "\<lparr>dot_files = [], printed = []\<rparr>"
  have h1: "open_readline ?w ''a.csv'' = Inr ''task_in,task_out\<newline>''"
    by (simp add: example_world_def)
  have h2: "''task_in,task_out\<newline>'' \<noteq> []"
    by simp
  have h3: "hd ''task_in,task_out\<newline>'' \<noteq> CHR ''#''"
    by simp
  have r: "read_csv ?w ''a.csv'' = Inr ?data"
    by (simp add: example_world_def)
  have d: "distinct (map dependency_key ?data)"
    by simp
  have c: "call ?w [''dot'', ''-Tpng'', fst (path_splitext ?w ''a.csv'') @ ''.dot'', ''-o'',
      fst (path_splitext ?w ''a.csv'') @ ''.png''] = Inr 0"
    by (simp add: example_world_def)
  have p: "fst (path_splitext ?w ''a.csv'') = ''a''"
    by (simp add: example_world_def)
  note t = no_version_comment [OF h1 h2 h3, of "Some ''v1''" ?args ?st]
  from t have g: "get_git_version ?w ''a.csv'' (Some ''v1'') = Inr None"
    by blast
  from t r obtain body st' err where m:
    "main_file ?w ?args ''a.csv'' ?st = (st', err)"
    "dot_files st' = dot_files ?st
      @ [(fst (path_splitext ?w ''a.csv'') @ ''.dot'', write_header_lines [] None @ body)]"
    "err = (if \<not> distinct (map dependency_key ?data)
              then Some (Exception ''Found two same task dependencies'')
            else case call ?w [''dot'', ''-Tpng'', fst (path_splitext ?w ''a.csv'') @ ''.dot'',
                               ''-o'', fst (path_splitext ?w ''a.csv'') @ ''.png''] of
                   Inl e \<Rightarrow> Some e
                 | Inr rc \<Rightarrow> None)"
    by blast
  have "err = None"
    unfolding m(3) using d c by simp
  moreover have "dot_files st' = [(''a.dot'', write_header_lines [] None @ body)]"
    using m(2) p by simp
  ultimately show ?thesis
    using g m(1) by blast
qed

text \<open>
  C1. Two input files whose version comments differ, \<^verbatim>\<open>v1\<close> and \<^verbatim>\<open>v2\<close>: the run ends without
  an error and writes both descriptions, each under its own version, although the version
  reader raises when it is given the version of the previous file.
\<close>

theorem version_mismatch_not_detected:
  "snd (main (example_world False False
          [(''a.csv'', ''# v1\<newline>'', []), (''b.csv'', ''# v2\<newline>'', [])])) = None
   \<and> map (\<lambda>(name, out). (name, out ! 2))
        (dot_files (fst (main (example_world False False
          [(''a.csv'', ''# v1\<newline>'', []), (''b.csv'', ''# v2\<newline>'', [])]))))
      = [(''a.dot'', TAB # '' label=\"Task dependencies for SWIFT v1\";\<newline>''),
         (''b.dot'', TAB # '' label=\"Task dependencies for SWIFT v2\";\<newline>'')]
   \<and> get_git_version (example_world False False
          [(''a.csv'', ''# v1\<newline>'', []), (''b.csv'', ''# v2\<newline>'', [])]) ''b.csv'' (Some ''v1'')
      = Inl (Exception ''Files were not produced by the same version'')"
  by (simp add: example_world_def main_def parse_args_def main_file_def get_git_version_def
      rstrip_def is_space_def write_header_def write_header_lines_def write_clusters_def
      write_dependencies_def write_footer_def np_unique_def series_max_def format_s_def Let_def)

subsection \<open>Duplicate dependencies\<close>

text \<open>
  C3. Two rows with distinct pairs of tasks, \<^verbatim>\<open>(a_b, c)\<close> and \<^verbatim>\<open>(a, b_c)\<close>, have the same key
  \<^verbatim>\<open>a_b_c\<close>: \<^verbatim>\<open>write_dependencies\<close> writes the first edge and raises at the second row.
\<close>

theorem distinct_pairs_same_key:
  "distinct (map (\<lambda>r. (task_in r, task_out r))
      [example_row ''a_b'' ''c'' ''None'' ''None'' 1, example_row ''a'' ''b_c'' ''None'' ''None'' 1])
   \<and> set_task_colours
        [example_row ''a_b'' ''c'' ''None'' ''None'' 1, example_row ''a'' ''b_c'' ''None'' ''None'' 1]
      = Inr [example_crow ''a_b'' ''c'' 1, example_crow ''a'' ''b_c'' 1]
   \<and> write_dependencies [] [example_crow ''a_b'' ''c'' 1, example_crow ''a'' ''b_c'' 1]
      = ([TAB # '' # Dependencies\<newline>'', edge (example_crow ''a_b'' ''c'' 1) False],
         Some (Exception ''Found two same task dependencies''))"
proof (intro conjI)
  show "distinct (map (\<lambda>r. (task_in r, task_out r))
      [example_row ''a_b'' ''c'' ''None'' ''None'' 1, example_row ''a'' ''b_c'' ''None'' ''None'' 1])"
    by (simp add: example_row_def)
  show "set_task_colours
        [example_row ''a_b'' ''c'' ''None'' ''None'' 1, example_row ''a'' ''b_c'' ''None'' ''None'' 1]
      = Inr [example_crow ''a_b'' ''c'' 1, example_crow ''a'' ''b_c'' 1]"
    by (simp add: example_crow_def example_row_def get_task_colour_def task_is_black_holes_def
        task_is_stars_def task_is_hydro_def task_is_gravity_def task_is_RT_def task_is_sink_def
        startswith_def)
  show "write_dependencies [] [example_crow ''a_b'' ''c'' 1, example_crow ''a'' ''b_c'' 1]
      = ([TAB # '' # Dependencies\<newline>'', edge (example_crow ''a_b'' ''c'' 1) False],
         Some (Exception ''Found two same task dependencies''))"
    by (simp add: write_dependencies_def series_max_def example_crow_simps edge_def Let_def)
qed

end
